theory Spec2Isabelle
  imports Main "HOL-Library.FSet"
begin

section \<open>Sessions, scopes, messages and errors\<close>

text \<open>
  An ORM session is an external object; only its identity matters here (and it is truthy:
  \<open>if session\<close> and \<open>if session is not None\<close> agree on it).  The calls the handlers make on
  a session (\<open>commit\<close>, \<open>rollback\<close>, \<open>close\<close>) are recorded as a trace of events, in the
  order the handler issues them.
\<close>

datatype session = Session nat

datatype event = Commit session | Rollback session | Close session

text \<open>
  Exceptions are values.  \<open>ValueError\<close> and \<open>KeyError\<close> are Python built-ins,
  \<open>ImproperConfigurationError\<close> is imported from \<open>advanced_alchemy.exceptions\<close> (a module of
  the repository), and \<open>OrmError\<close> stands for whatever the ORM raises from a session call.
\<close>

datatype error = ValueError | KeyError | ImproperConfigurationError | OrmError

fun repository_defined :: "error \<Rightarrow> bool" where
  "repository_defined ImproperConfigurationError = True"
| "repository_defined ValueError = False"
| "repository_defined KeyError = False"
| "repository_defined OrmError = False"

text \<open>
  The plugin's namespace inside the ASGI scope is a dictionary from keys to sessions.
\<close>

type_synonym scope = "string \<rightharpoonup> session"

text \<open>
  An ASGI message is a dictionary with a \<open>type\<close> entry; a response-start message also has
  a \<open>status\<close> entry.  Reading \<open>message["status"]\<close> from a message without one raises
  \<open>KeyError\<close>.
\<close>

record message =
  msg_type :: string
  msg_status :: "int option"

text \<open>
  The constants \<open>HTTP_RESPONSE_START\<close> (of the web framework), \<open>SESSION_SCOPE_KEY\<close> and
  \<open>SESSION_TERMINUS_ASGI_EVENTS\<close> (both of \<open>config/common.py\<close>) are imported by the source
  but their values are not part of it: they are parameters of the model.
\<close>

record module_constants =
  HTTP_RESPONSE_START :: string
  SESSION_SCOPE_KEY :: string
  SESSION_TERMINUS_ASGI_EVENTS :: "string set"

text \<open>
  What the ORM does when a session method is awaited: return, or raise.
\<close>

record orm =
  commit_raises :: bool
  rollback_raises :: bool
  close_raises :: bool

text \<open>
  What a handler call leaves behind: the session calls it made, the scope state, and the
  exception that propagates out of it (if any).
\<close>

record outcome =
  events :: "event list"
  scope_after :: scope
  raised :: "error option"

type_synonym handler = "orm \<Rightarrow> message \<Rightarrow> scope \<Rightarrow> outcome"

subsection \<open>Scope-state helpers\<close>

definition get_aa_scope_state :: "scope \<Rightarrow> string \<Rightarrow> session option" where
  \<comment> \<open>Modelled from the spec: \<open>get_aa_scope_state\<close> of \<open>_utils.py\<close> is not among the sources;
      the scope state is a request-scope dictionary, read with default \<open>None\<close>.\<close>
  "get_aa_scope_state scope key = scope key"

definition set_aa_scope_state :: "scope \<Rightarrow> string \<Rightarrow> session \<Rightarrow> scope" where
  \<comment> \<open>Modelled from the spec: \<open>set_aa_scope_state\<close> of \<open>_utils.py\<close> is not among the sources;
      it stores the value in the request-scope dictionary.\<close>
  "set_aa_scope_state scope key v = scope(key \<mapsto> v)"

definition delete_aa_scope_state :: "scope \<Rightarrow> string \<Rightarrow> scope" where
  \<comment> \<open>Modelled from the spec: \<open>delete_aa_scope_state\<close> of \<open>_utils.py\<close> is not among the
      sources; it removes the entry from the request-scope dictionary.  Both handlers call
      it only after they have read a session under the same key.\<close>
  "delete_aa_scope_state scope key = scope(key := None)"

section \<open>The before-send handlers\<close>

text \<open>
  The cleanup both handlers share (in the autocommit handler it is the \<open>finally\<close> block):
  when a session is stored and the message type is a terminus event, the session is closed
  and then removed from the scope.  \<open>exc\<close> is the exception already propagating when the
  cleanup starts; an exception raised by \<open>close\<close> replaces it and skips the removal.
\<close>

definition close_and_delete ::
  "module_constants \<Rightarrow> orm \<Rightarrow> string \<Rightarrow> session option \<Rightarrow> message \<Rightarrow> scope
     \<Rightarrow> event list \<Rightarrow> error option \<Rightarrow> outcome" where
  "close_and_delete C db session_scope_key session message scope evs exc =
     (case session of
        Some s \<Rightarrow>
          if msg_type message \<in> SESSION_TERMINUS_ASGI_EVENTS C then
            (if close_raises db
             then \<lparr>events = evs @ [Close s], scope_after = scope, raised = Some OrmError\<rparr>
             else \<lparr>events = evs @ [Close s],
                   scope_after = delete_aa_scope_state scope session_scope_key,
                   raised = exc\<rparr>)
          else \<lparr>events = evs, scope_after = scope, raised = exc\<rparr>
      | None \<Rightarrow> \<lparr>events = evs, scope_after = scope, raised = exc\<rparr>)"

definition default_handler_maker :: "module_constants \<Rightarrow> string \<Rightarrow> handler" where
  "default_handler_maker C session_scope_key =
     (\<lambda>db message scope.
        let session = get_aa_scope_state scope session_scope_key
        in close_and_delete C db session_scope_key session message scope [] None)"

text \<open>
  \<open>range(200, 400 if commit_on_redirect else 300)\<close>: the integers from 200 up to, not
  including, the upper end.
\<close>

definition commit_range :: "bool \<Rightarrow> int set" where
  "commit_range commit_on_redirect = {200 ..< (if commit_on_redirect then 400 else 300)}"

text \<open>
  The \<open>try\<close> block of the autocommit handler: the session calls it makes and the exception
  it raises.
\<close>

definition commit_or_rollback ::
  "module_constants \<Rightarrow> orm \<Rightarrow> int set \<Rightarrow> int fset \<Rightarrow> int fset \<Rightarrow> session option \<Rightarrow> message
     \<Rightarrow> event list \<times> error option" where
  "commit_or_rollback C db rng extra_commit_statuses extra_rollback_statuses session message =
     (case session of
        Some s \<Rightarrow>
          if msg_type message = HTTP_RESPONSE_START C then
            (case msg_status message of
               None \<Rightarrow> ([], Some KeyError)
             | Some status \<Rightarrow>
                 if (status \<in> rng \<or> status |\<in>| extra_commit_statuses)
                    \<and> status |\<notin>| extra_rollback_statuses
                 then ([Commit s], if commit_raises db then Some OrmError else None)
                 else ([Rollback s], if rollback_raises db then Some OrmError else None))
          else ([], None)
      | None \<Rightarrow> ([], None))"

definition autocommit_handler ::
  "module_constants \<Rightarrow> int set \<Rightarrow> int fset \<Rightarrow> int fset \<Rightarrow> string \<Rightarrow> handler" where
  "autocommit_handler C rng extra_commit_statuses extra_rollback_statuses session_scope_key =
     (\<lambda>db message scope.
        let session = get_aa_scope_state scope session_scope_key;
            (evs, exc) = commit_or_rollback C db rng extra_commit_statuses
                           extra_rollback_statuses session message
        in close_and_delete C db session_scope_key session message scope evs exc)"

definition autocommit_handler_maker ::
  "module_constants \<Rightarrow> bool \<Rightarrow> int fset option \<Rightarrow> int fset option \<Rightarrow> string
     \<Rightarrow> error + handler" where
  "autocommit_handler_maker C commit_on_redirect extra_commit_statuses extra_rollback_statuses
       session_scope_key =
     (let extra_commit_statuses =
            (case extra_commit_statuses of None \<Rightarrow> {||} | Some x \<Rightarrow> x);
          extra_rollback_statuses =
            (case extra_rollback_statuses of None \<Rightarrow> {||} | Some x \<Rightarrow> x)
      in if fcard (extra_commit_statuses |\<inter>| extra_rollback_statuses) > 0
         then Inl ValueError
         else Inr (autocommit_handler C (commit_range commit_on_redirect)
                     extra_commit_statuses extra_rollback_statuses session_scope_key))"

text \<open>The session calls of a trace that are commits or rollbacks.\<close>

fun is_commit :: "event \<Rightarrow> bool" where
  "is_commit (Commit _) = True"
| "is_commit _ = False"

fun is_rollback :: "event \<Rightarrow> bool" where
  "is_rollback (Rollback _) = True"
| "is_rollback _ = False"

fun is_close :: "event \<Rightarrow> bool" where
  "is_close (Close _) = True"
| "is_close _ = False"

text \<open>An optional status set, read as the source does (\<open>None\<close> is the empty set).\<close>

definition statuses :: "int fset option \<Rightarrow> int fset" where
  "statuses x = (case x of None \<Rightarrow> {||} | Some s \<Rightarrow> s)"

text \<open>Concrete values of the constants, for evaluating the model.\<close>

definition asgi :: module_constants where
  "asgi = \<lparr>HTTP_RESPONSE_START = ''http.response.start'',
           SESSION_SCOPE_KEY = ''_sqlalchemy_db_session'',
           SESSION_TERMINUS_ASGI_EVENTS =
             {''http.response.start'', ''http.disconnect'',
              ''websocket.disconnect'', ''websocket.close''}\<rparr>"

section \<open>The configuration class\<close>

subsection \<open>Unique keys\<close>

text \<open>
  \<open>f"{key}_{_iter}"\<close>: the key, an underscore and the decimal digits of the counter.
\<close>

definition digit_char :: "nat \<Rightarrow> char" where
  "digit_char d = ''0123456789'' ! d"

fun str_nat :: "nat \<Rightarrow> string" where
  "str_nat n = (if n < 10 then [digit_char n] else str_nat (n div 10) @ [digit_char (n mod 10)])"

declare str_nat.simps [simp del]

definition suffixed :: "string \<Rightarrow> nat \<Rightarrow> string" where
  "suffixed key n = key @ ''_'' @ str_nat n"

text \<open>
  Different counters give different strings, so a finite registry holds only finitely
  many of the candidates \<open>key_1\<close>, \<open>key_2\<close>, ...; this is why the search below ends.
\<close>

lemma digit_char_inj: "a < 10 \<Longrightarrow> b < 10 \<Longrightarrow> digit_char a = digit_char b \<Longrightarrow> a = b"
proof -
  assume a: "a < 10" and b: "b < 10" and e: "digit_char a = digit_char b"
  have d: "distinct ''0123456789''" by simp
  have l: "length ''0123456789'' = 10" by simp
  from e a b show "a = b"
    unfolding digit_char_def using nth_eq_iff_index_eq [OF d, of a b] l by simp
qed

lemma str_nat_nonempty: "str_nat n \<noteq> []"
  by (subst str_nat.simps) simp

lemma str_nat_inj: "str_nat a = str_nat b \<Longrightarrow> a = b"
proof (induction a arbitrary: b rule: str_nat.induct)
  case (1 n)
  show ?case
  proof (cases "n < 10")
    case True
    then have n: "str_nat n = [digit_char n]" by (subst str_nat.simps) simp
    show ?thesis
    proof (cases "b < 10")
      case bs: True
      then have "str_nat b = [digit_char b]" by (subst str_nat.simps) simp
      with n "1.prems" True bs show ?thesis by (simp add: digit_char_inj)
    next
      case False
      then have "str_nat b = str_nat (b div 10) @ [digit_char (b mod 10)]"
        by (subst str_nat.simps) simp
      with n "1.prems" show ?thesis using str_nat_nonempty [of "b div 10"] by auto
    qed
  next
    case False
    then have n: "str_nat n = str_nat (n div 10) @ [digit_char (n mod 10)]"
      by (subst str_nat.simps) simp
    show ?thesis
    proof (cases "b < 10")
      case True
      then have "str_nat b = [digit_char b]" by (subst str_nat.simps) simp
      with n "1.prems" show ?thesis using str_nat_nonempty [of "n div 10"] by auto
    next
      case bf: False
      then have "str_nat b = str_nat (b div 10) @ [digit_char (b mod 10)]"
        by (subst str_nat.simps) simp
      with n "1.prems" have e1: "str_nat (n div 10) = str_nat (b div 10)"
        and e2: "digit_char (n mod 10) = digit_char (b mod 10)" by simp_all
      from "1.IH" [OF False e1] have q: "n div 10 = b div 10" .
      from e2 have r: "n mod 10 = b mod 10" by (simp add: digit_char_inj)
      from q r show ?thesis by (metis div_mult_mod_eq)
    qed
  qed
qed

lemma suffixed_inj: "inj (suffixed key)"
  by (rule injI) (simp add: suffixed_def str_nat_inj)

lemma finite_suffixes: "finite {n. suffixed key n |\<in>| reg}"
proof -
  have "{n. suffixed key n |\<in>| reg} = suffixed key -` fset reg" by auto
  then show ?thesis by (simp add: finite_vimageI suffixed_inj)
qed

text \<open>
  \<open>_ensure_unique\<close>, with the registry it looks up by name passed as its value.  The
  recursion ends because every call that recurses has found one more registered candidate.
\<close>

function ensure_unique :: "string fset \<Rightarrow> string \<Rightarrow> string option \<Rightarrow> nat \<Rightarrow> string" where
  "ensure_unique registry key new_key iter =
     (let new_key = (case new_key of Some k \<Rightarrow> k | None \<Rightarrow> key)
      in if new_key |\<in>| registry
         then (let iter = iter + 1
               in ensure_unique registry key (Some (suffixed key iter)) iter)
         else new_key)"
  by pat_completeness auto
termination
proof (relation "measure (\<lambda>(registry, key, new_key, iter).
         if (case new_key of Some k \<Rightarrow> k | None \<Rightarrow> key) |\<in>| registry
         then Suc (card {n. iter < n \<and> suffixed key n |\<in>| registry}) else 0)")
  show "wf (measure (\<lambda>(registry, key, new_key, iter).
         if (case new_key of Some k \<Rightarrow> k | None \<Rightarrow> key) |\<in>| registry
         then Suc (card {n. iter < n \<and> suffixed key n |\<in>| registry}) else 0))"
    by simp
next
  fix registry :: "string fset" and key :: string and new_key :: "string option"
    and iter :: nat and x xa
  assume x: "x = (case new_key of None \<Rightarrow> key | Some k \<Rightarrow> k)"
     and m: "x |\<in>| registry" and xa: "xa = iter + 1"
  have fin: "finite {n. iter < n \<and> suffixed key n |\<in>| registry}"
    using finite_suffixes [of key registry] by (rule rev_finite_subset) auto
  have "suffixed key xa |\<in>| registry \<Longrightarrow>
        card {n. xa < n \<and> suffixed key n |\<in>| registry}
          < card {n. iter < n \<and> suffixed key n |\<in>| registry}"
  proof -
    assume i: "suffixed key xa |\<in>| registry"
    have "{n. xa < n \<and> suffixed key n |\<in>| registry}
            \<subset> {n. iter < n \<and> suffixed key n |\<in>| registry}"
      using i xa by auto
    then show ?thesis using fin by (rule psubset_card_mono [rotated])
  qed
  then show "((registry, key, Some (suffixed key xa), xa), registry, key, new_key, iter)
       \<in> measure (\<lambda>(registry, key, new_key, iter).
         if (case new_key of Some k \<Rightarrow> k | None \<Rightarrow> key) |\<in>| registry
         then Suc (card {n. iter < n \<and> suffixed key n |\<in>| registry}) else 0)"
    using x m by simp
qed

declare ensure_unique.simps [simp del]

text \<open>
  What the renaming is meant to achieve, in the words of its description: \<open>n\<close> is the
  smallest positive integer whose candidate \<open>key_n\<close> is not registered, and the final value
  is the key itself when that is not registered, the candidate of that \<open>n\<close> otherwise.
\<close>

definition is_smallest_suffix :: "string fset \<Rightarrow> string \<Rightarrow> nat \<Rightarrow> bool" where
  "is_smallest_suffix registry key n =
     (0 < n \<and> suffixed key n |\<notin>| registry
      \<and> (\<forall>j. 0 < j \<and> j < n \<longrightarrow> suffixed key j |\<in>| registry))"

definition renamed :: "string fset \<Rightarrow> string \<Rightarrow> string \<Rightarrow> bool" where
  "renamed registry key final =
     (if key |\<in>| registry then \<exists>n. is_smallest_suffix registry key n \<and> final = suffixed key n
      else final = key)"

text \<open>
  The dataclass fields the plugin reads, with the values \<open>before_send_handler\<close> can take:
  \<open>None\<close>, one of the two literals, or a handler.
\<close>

datatype before_send = NoHandler | Autocommit | AutocommitIncludeRedirects | Handler handler

record config =
  before_send_handler :: before_send
  engine_dependency_key :: string
  session_dependency_key :: string
  engine_app_state_key :: string
  session_maker_app_state_key :: string
  session_scope_key :: string
  set_default_exception_handler :: bool

text \<open>The defaults of the dataclass fields.\<close>

definition default_config :: "module_constants \<Rightarrow> config" where
  "default_config C =
     \<lparr>before_send_handler = NoHandler,
      engine_dependency_key = ''db_engine'',
      session_dependency_key = ''db_session'',
      engine_app_state_key = ''db_engine'',
      session_maker_app_state_key = ''session_maker_class'',
      session_scope_key = SESSION_SCOPE_KEY C,
      set_default_exception_handler = True\<rparr>"

text \<open>The three class-level registries, shared by all instances.\<close>

record registries =
  SESSION_SCOPE_KEY_REGISTRY :: "string fset"
  ENGINE_APP_STATE_KEY_REGISTRY :: "string fset"
  SESSIONMAKER_APP_STATE_KEY_REGISTRY :: "string fset"

text \<open>
  \<open>__post_init__\<close>, up to its call of the parent class's \<open>__post_init__\<close> (which is not
  among the sources).  It takes the class-level registries and returns them updated.
\<close>

definition post_init :: "module_constants \<Rightarrow> registries \<Rightarrow> config \<Rightarrow> error + registries \<times> config" where
  "post_init C cls self =
     (let self = self\<lparr>session_scope_key :=
                   ensure_unique (SESSION_SCOPE_KEY_REGISTRY cls) (session_scope_key self) None 0\<rparr>;
          self = self\<lparr>engine_app_state_key :=
                   ensure_unique (ENGINE_APP_STATE_KEY_REGISTRY cls) (engine_app_state_key self) None 0\<rparr>;
          self = self\<lparr>session_maker_app_state_key :=
                   ensure_unique (SESSIONMAKER_APP_STATE_KEY_REGISTRY cls)
                     (session_maker_app_state_key self) None 0\<rparr>;
          cls = cls\<lparr>SESSION_SCOPE_KEY_REGISTRY :=
                   finsert (session_scope_key self) (SESSION_SCOPE_KEY_REGISTRY cls)\<rparr>;
          cls = cls\<lparr>ENGINE_APP_STATE_KEY_REGISTRY :=
                   finsert (engine_app_state_key self) (ENGINE_APP_STATE_KEY_REGISTRY cls)\<rparr>;
          cls = cls\<lparr>SESSIONMAKER_APP_STATE_KEY_REGISTRY :=
                   finsert (session_maker_app_state_key self)
                     (SESSIONMAKER_APP_STATE_KEY_REGISTRY cls)\<rparr>
      in case before_send_handler self of
           NoHandler \<Rightarrow>
             Inr (cls, self\<lparr>before_send_handler :=
                    Handler (default_handler_maker C (session_scope_key self))\<rparr>)
         | Autocommit \<Rightarrow>
             (case autocommit_handler_maker C False None None (session_scope_key self) of
                Inl e \<Rightarrow> Inl e
              | Inr h \<Rightarrow> Inr (cls, self\<lparr>before_send_handler := Handler h\<rparr>))
         | AutocommitIncludeRedirects \<Rightarrow>
             (case autocommit_handler_maker C True None None (session_scope_key self) of
                Inl e \<Rightarrow> Inl e
              | Inr h \<Rightarrow> Inr (cls, self\<lparr>before_send_handler := Handler h\<rparr>))
         | Handler h \<Rightarrow> Inr (cls, self))"

text \<open>
  Creating one instance of the class after another, each from the fields it is requested
  with: every instance runs \<open>__post_init__\<close> on the registries the earlier ones left.
\<close>

fun create_instances ::
  "module_constants \<Rightarrow> registries \<Rightarrow> config list \<Rightarrow> error + registries \<times> config list" where
  "create_instances C cls [] = Inr (cls, [])"
| "create_instances C cls (c # cs) =
     (case post_init C cls c of
        Inl e \<Rightarrow> Inl e
      | Inr (cls1, c') \<Rightarrow>
          (case create_instances C cls1 cs of
             Inl e \<Rightarrow> Inl e
           | Inr (cls2, cs') \<Rightarrow> Inr (cls2, c' # cs')))"

subsection \<open>Providing a session\<close>

text \<open>
  The world outside a call of \<open>provide_session\<close>: how often a session maker has been
  invoked so far, and the flag \<open>set_async_context\<close> sets.  A session maker is a callable;
  its result may depend on which invocation it is.
\<close>

record world =
  maker_calls :: nat
  async_context :: bool

type_synonym session_maker = "nat \<Rightarrow> session"

type_synonym app_state = "string \<rightharpoonup> session_maker"

definition set_async_context :: "bool \<Rightarrow> world \<Rightarrow> world" where
  \<comment> \<open>Modelled from the spec: \<open>set_async_context\<close> of \<open>_listeners.py\<close> is not among the
      sources; it records the flag it is given.\<close>
  "set_async_context b w = w\<lparr>async_context := b\<rparr>"

definition provide_session ::
  "config \<Rightarrow> app_state \<Rightarrow> scope \<Rightarrow> world \<Rightarrow> error + session \<times> scope \<times> world" where
  "provide_session self state scope w =
     (case get_aa_scope_state scope (session_scope_key self) of
        None \<Rightarrow>
          (case state (session_maker_app_state_key self) of
             None \<Rightarrow> Inl KeyError
           | Some session_maker \<Rightarrow>
               let session = session_maker (maker_calls w);
                   w = w\<lparr>maker_calls := Suc (maker_calls w)\<rparr>;
                   scope = set_aa_scope_state scope (session_scope_key self) session
               in Inr (session, scope, set_async_context True w))
      | Some session \<Rightarrow> Inr (session, scope, set_async_context True w))"

section \<open>The plugin\<close>

text \<open>
  The plugin holds one config or a sequence of configs.
\<close>

datatype plugin_config = Single config | Sequence "config list"

definition configs :: "plugin_config \<Rightarrow> config list" where
  "configs c = (case c of Sequence cs \<Rightarrow> cs | Single c \<Rightarrow> [c])"

definition validate_config :: "plugin_config \<Rightarrow> error + unit" where
  "validate_config c =
     (let configs = (case c of Sequence cs \<Rightarrow> cs | Single c \<Rightarrow> [c]);
          scope_keys = set (map session_scope_key configs);
          engine_keys = set (map engine_dependency_key configs);
          session_keys = set (map session_dependency_key configs)
      in if length configs > 1
            \<and> list_ex (\<lambda>i. card i \<noteq> length configs) [scope_keys, engine_keys, session_keys]
         then Inl ImproperConfigurationError
         else Inr ())"

section \<open>Filter dependencies\<close>

text \<open>
  Modelled from the spec: the filter classes of \<open>advanced_alchemy.filters\<close> and the
  \<open>FilterConfig\<close> dictionary of \<open>providers.py\<close> are not among the sources.  These are the
  filters a request can carry, with the fields the aggregation looks at, and the entries of
  the declarative filter configuration that the tests use.
\<close>

datatype filter_type =
    CollectionFilter string "string list"
  | NotInCollectionFilter string "string list"
  | BeforeAfter string
  | SearchFilter string "string option"
  | OrderBy "string option" string
  | LimitOffset nat nat

record filter_config =
  id_filter :: "string option"
  created_at :: bool
  updated_at :: bool
  search :: "string option"
  pagination_type :: "string option"
  sort_field :: "string option"
  not_in_fields :: "string list"
  in_fields :: "string list"

definition aggregate_parameters :: "filter_config \<Rightarrow> string list" where
  \<comment> \<open>Modelled from the spec: \<open>_create_filter_aggregate_function\<close> of \<open>providers.py\<close> is not
      among the sources.  The aggregate function takes one keyword parameter per configured
      filter.\<close>
  "aggregate_parameters config =
     (if id_filter config \<noteq> None then [''id_filter''] else [])
     @ (if created_at config then [''created_filter''] else [])
     @ (if updated_at config then [''updated_filter''] else [])
     @ (if search config \<noteq> None then [''search_filter''] else [])
     @ (if pagination_type config = Some ''limit_offset'' then [''limit_offset_filter''] else [])
     @ (if sort_field config \<noteq> None then [''order_by_filter''] else [])
     @ map (\<lambda>field. field @ ''_not_in_filter'') (not_in_fields config)
     @ map (\<lambda>field. field @ ''_in_filter'') (in_fields config)"

text \<open>
  Modelled from the spec: the validity test inside the aggregate function, which is not
  among the sources.  A \<open>SearchFilter\<close> whose value is \<open>None\<close> and an \<open>OrderBy\<close> whose field
  name is \<open>None\<close> are not valid; every other filter is.
\<close>

fun valid_filter :: "filter_type \<Rightarrow> bool" where
  "valid_filter (SearchFilter field_name None) = False"
| "valid_filter (OrderBy None sort_order) = False"
| "valid_filter f = True"

definition create_filter_aggregate_function ::
  "filter_config \<Rightarrow> (string \<rightharpoonup> filter_type) \<Rightarrow> filter_type list" where
  \<comment> \<open>Modelled from the spec: \<open>_create_filter_aggregate_function\<close> of \<open>providers.py\<close> is not
      among the sources.  The function it returns collects, parameter by parameter, the
      passed filters that are valid: an argument that is \<open>None\<close>, a \<open>SearchFilter\<close> whose value
      is \<open>None\<close> and an \<open>OrderBy\<close> whose field name is \<open>None\<close> are left out.\<close>
  "create_filter_aggregate_function config =
     (\<lambda>kwargs. concat (map (\<lambda>name. case kwargs name of
                                      None \<Rightarrow> []
                                    | Some f \<Rightarrow> if valid_filter f then [f] else [])
                            (aggregate_parameters config)))"

text \<open>
  The configuration of the test \<open>test_multiple_filters_aggregation\<close>, for evaluating the
  model.
\<close>

definition example_filter_config :: filter_config where
  "example_filter_config =
     \<lparr>id_filter = Some ''int'', created_at = True, updated_at = True, search = Some ''name'',
      pagination_type = Some ''limit_offset'', sort_field = Some ''name'',
      not_in_fields = [''status''], in_fields = [''tag'']\<rparr>"

text \<open>
  The dependency cache maps the hash of a key to a dependency map.  The state of the
  providers module is the cache together with a log of the configurations
  \<open>_create_statement_filters\<close> has been called with.
\<close>

record 'd providers_state =
  dependencies :: "int \<rightharpoonup> 'd"
  statement_filter_calls :: "filter_config list"

definition get_dependencies ::
  "(filter_config \<Rightarrow> int) \<Rightarrow> 'd providers_state \<Rightarrow> filter_config \<Rightarrow> 'd option" where
  \<comment> \<open>Modelled from the spec: \<open>DependencyCache.get_dependencies\<close> of \<open>providers.py\<close> is not
      among the sources; it returns the entry stored under the key, or \<open>None\<close>.\<close>
  "get_dependencies hash st key = dependencies st (hash key)"

definition add_dependencies ::
  "(filter_config \<Rightarrow> int) \<Rightarrow> 'd providers_state \<Rightarrow> filter_config \<Rightarrow> 'd \<Rightarrow> 'd providers_state" where
  \<comment> \<open>Modelled from the spec: \<open>DependencyCache.add_dependencies\<close> of \<open>providers.py\<close> is not
      among the sources; it stores the dependency map under the key.\<close>
  "add_dependencies hash st key deps =
     st\<lparr>dependencies := (dependencies st)(hash key \<mapsto> deps)\<rparr>"

definition create_filter_dependencies ::
  "(filter_config \<Rightarrow> int) \<Rightarrow> (filter_config \<Rightarrow> 'x \<Rightarrow> 'd) \<Rightarrow> filter_config \<Rightarrow> 'x
     \<Rightarrow> 'd providers_state \<Rightarrow> 'd \<times> 'd providers_state" where
  \<comment> \<open>Modelled from the spec: \<open>create_filter_dependencies\<close> of \<open>providers.py\<close> is not among
      the sources.  If the cache holds an entry under the config's key, that entry is
      returned; otherwise the map is built by \<open>_create_statement_filters\<close> (a parameter
      here), added to the cache under the config's key, and returned.\<close>
  "create_filter_dependencies hash create_statement_filters config dep_defaults st =
     (case get_dependencies hash st config of
        Some deps \<Rightarrow> (deps, st)
      | None \<Rightarrow>
          let deps = create_statement_filters config dep_defaults;
              st = st\<lparr>statement_filter_calls := statement_filter_calls st @ [config]\<rparr>;
              st = add_dependencies hash st config deps
          in (deps, st))"

section \<open>Properties of the before-send handlers\<close>

lemma fcard_pos_iff: "(0 < fcard A) = (A \<noteq> {||})"
  by (cases "A = {||}") (auto simp: fcard_fempty dest: fcard_0_eq[THEN iffD1])

lemma maker_unfold:
  "autocommit_handler_maker C cor ec er key =
     (if statuses ec |\<inter>| statuses er \<noteq> {||} then Inl ValueError
      else Inr (autocommit_handler C (commit_range cor) (statuses ec) (statuses er) key))"
  by (simp add: autocommit_handler_maker_def statuses_def fcard_pos_iff Let_def)

text \<open>
  Claim C8.  \<open>autocommit_handler_maker\<close> raises \<open>ValueError\<close> if and only if the extra
  commit statuses and the extra rollback statuses (each the empty set when \<open>None\<close>) share a
  status code; it raises nothing else, and when the two sets are disjoint it returns a
  handler.
\<close>
theorem autocommit_handler_maker_raises_iff:
  "(autocommit_handler_maker C commit_on_redirect ec er key = Inl ValueError)
     = (\<exists>code. code |\<in>| statuses ec \<and> code |\<in>| statuses er)
   \<and> (\<exists>e. autocommit_handler_maker C commit_on_redirect ec er key = Inl e)
     = (\<exists>code. code |\<in>| statuses ec \<and> code |\<in>| statuses er)
   \<and> (\<exists>h. autocommit_handler_maker C commit_on_redirect ec er key = Inr h)
     = (statuses ec |\<inter>| statuses er = {||})"
  by (auto simp: maker_unfold)

lemma autocommit_events:
  assumes "get_aa_scope_state scope key = Some s" "msg_type m = HTTP_RESPONSE_START C" "msg_status m = Some status"
  shows "events (autocommit_handler C rng ec er key db m scope) =
     (if (status \<in> rng \<or> status |\<in>| ec) \<and> status |\<notin>| er then [Commit s] else [Rollback s])
     @ (if msg_type m \<in> SESSION_TERMINUS_ASGI_EVENTS C then [Close s] else [])"
  using assms
  by (simp add: autocommit_handler_def commit_or_rollback_def close_and_delete_def)

text \<open>
  Claim C1.  A handler made by \<open>autocommit_handler_maker\<close>, given a response-start message
  while a session is stored under the session scope key, commits that session if and only
  if the status is in \<open>[200, 300)\<close> (\<open>[200, 400)\<close> with \<open>commit_on_redirect\<close>) or among the
  extra commit statuses, and is not among the extra rollback statuses; otherwise it rolls
  the session back.  It never does both and never does neither.
\<close>
theorem autocommit_commits_iff_status:
  assumes "autocommit_handler_maker C commit_on_redirect ec er key = Inr h"
      and "get_aa_scope_state scope key = Some s"
      and "msg_type m = HTTP_RESPONSE_START C"
      and "msg_status m = Some status"
  shows "(Commit s \<in> set (events (h db m scope)))
           = (((200 \<le> status \<and> status < (if commit_on_redirect then 400 else 300))
                 \<or> status |\<in>| statuses ec) \<and> status |\<notin>| statuses er)
       \<and> (Rollback s \<in> set (events (h db m scope)))
           = (\<not> (((200 \<le> status \<and> status < (if commit_on_redirect then 400 else 300))
                 \<or> status |\<in>| statuses ec) \<and> status |\<notin>| statuses er))
       \<and> length (filter (\<lambda>e. is_commit e \<or> is_rollback e) (events (h db m scope))) = 1"
proof -
  from assms(1) have h: "h = autocommit_handler C (commit_range commit_on_redirect) (statuses ec) (statuses er) key"
    by (simp add: maker_unfold split: if_splits)
  show ?thesis
    unfolding h autocommit_events[OF assms(2,3,4)]
    by (simp add: commit_range_def)
qed

text \<open>
  An instance of C1: status 201, no extra commit statuses, extra rollback status 409.
\<close>
theorem autocommit_commits_iff_status_witness:
  "autocommit_handler_maker asgi False None (Some {|409|}) ''_aa_session''
      = Inr (autocommit_handler asgi (commit_range False) {||} {|409|} ''_aa_session'')
   \<and> get_aa_scope_state [''_aa_session'' \<mapsto> Session 0] ''_aa_session'' = Some (Session 0)
   \<and> msg_type \<lparr>msg_type = ''http.response.start'', msg_status = Some 201\<rparr>
        = HTTP_RESPONSE_START asgi
   \<and> Commit (Session 0) \<in> set (events
         (autocommit_handler asgi (commit_range False) {||} {|409|} ''_aa_session''
            \<lparr>commit_raises = False, rollback_raises = False, close_raises = False\<rparr>
            \<lparr>msg_type = ''http.response.start'', msg_status = Some 201\<rparr>
            [''_aa_session'' \<mapsto> Session 0]))"
proof -
  have mk: "autocommit_handler_maker asgi False None (Some {|409|}) ''_aa_session''
      = Inr (autocommit_handler asgi (commit_range False) {||} {|409|} ''_aa_session'')"
    by (simp add: maker_unfold statuses_def)
  have st: "get_aa_scope_state [''_aa_session'' \<mapsto> Session 0] ''_aa_session'' = Some (Session 0)"
    by (simp add: get_aa_scope_state_def)
  have ty: "msg_type \<lparr>msg_type = ''http.response.start'', msg_status = Some 201\<rparr>
        = HTTP_RESPONSE_START asgi"
    by (simp add: asgi_def)
  have status: "msg_status \<lparr>msg_type = ''http.response.start'', msg_status = Some 201\<rparr> = Some 201"
    by simp
  show ?thesis
    using autocommit_commits_iff_status [OF mk st ty status,
        of "\<lparr>commit_raises = False, rollback_raises = False, close_raises = False\<rparr>"] mk st ty
    by (simp add: statuses_def)
qed

lemma default_outcome:
  "default_handler_maker C key db m scope =
     (case scope key of
        Some s \<Rightarrow>
          if msg_type m \<in> SESSION_TERMINUS_ASGI_EVENTS C then
            (if close_raises db
             then \<lparr>events = [Close s], scope_after = scope, raised = Some OrmError\<rparr>
             else \<lparr>events = [Close s], scope_after = scope(key := None), raised = None\<rparr>)
          else \<lparr>events = [], scope_after = scope, raised = None\<rparr>
      | None \<Rightarrow> \<lparr>events = [], scope_after = scope, raised = None\<rparr>)"
  by (simp add: default_handler_maker_def get_aa_scope_state_def close_and_delete_def
        delete_aa_scope_state_def split: option.splits)

lemma autocommit_cleanup:
  "filter is_close (events (autocommit_handler C rng ec er key db m scope)) =
     (case scope key of
        Some s \<Rightarrow> if msg_type m \<in> SESSION_TERMINUS_ASGI_EVENTS C then [Close s] else []
      | None \<Rightarrow> [])
   \<and> scope_after (autocommit_handler C rng ec er key db m scope) =
     (if scope key \<noteq> None \<and> msg_type m \<in> SESSION_TERMINUS_ASGI_EVENTS C \<and> \<not> close_raises db
      then scope(key := None) else scope)"
  by (simp add: autocommit_handler_def get_aa_scope_state_def commit_or_rollback_def
        close_and_delete_def delete_aa_scope_state_def split: option.splits)

text \<open>
  Claim C3 says that each before-send handler closes the stored session and deletes it
  from the scope state exactly when the message type is a terminus event and a session is
  stored.  Both handlers delete only after the awaited \<open>close\<close> has returned: when \<open>close\<close>
  raises on a terminus event, the session is closed but stays in the scope state.
\<close>
theorem close_raising_keeps_session_in_scope:
  "msg_type \<lparr>msg_type = ''http.response.start'', msg_status = Some 200\<rparr>
      \<in> SESSION_TERMINUS_ASGI_EVENTS asgi
   \<and> get_aa_scope_state [''_aa_session'' \<mapsto> Session 3] ''_aa_session'' = Some (Session 3)
   \<and> events (default_handler_maker asgi ''_aa_session''
          \<lparr>commit_raises = False, rollback_raises = False, close_raises = True\<rparr>
          \<lparr>msg_type = ''http.response.start'', msg_status = Some 200\<rparr>
          [''_aa_session'' \<mapsto> Session 3]) = [Close (Session 3)]
   \<and> get_aa_scope_state (scope_after (default_handler_maker asgi ''_aa_session''
          \<lparr>commit_raises = False, rollback_raises = False, close_raises = True\<rparr>
          \<lparr>msg_type = ''http.response.start'', msg_status = Some 200\<rparr>
          [''_aa_session'' \<mapsto> Session 3])) ''_aa_session'' = Some (Session 3)
   \<and> autocommit_handler_maker asgi False None None ''_aa_session''
      = Inr (autocommit_handler asgi (commit_range False) {||} {||} ''_aa_session'')
   \<and> events (autocommit_handler asgi (commit_range False) {||} {||} ''_aa_session''
          \<lparr>commit_raises = False, rollback_raises = False, close_raises = True\<rparr>
          \<lparr>msg_type = ''http.response.start'', msg_status = Some 200\<rparr>
          [''_aa_session'' \<mapsto> Session 3]) = [Commit (Session 3), Close (Session 3)]
   \<and> get_aa_scope_state (scope_after
          (autocommit_handler asgi (commit_range False) {||} {||} ''_aa_session''
          \<lparr>commit_raises = False, rollback_raises = False, close_raises = True\<rparr>
          \<lparr>msg_type = ''http.response.start'', msg_status = Some 200\<rparr>
          [''_aa_session'' \<mapsto> Session 3])) ''_aa_session'' = Some (Session 3)"
  by (simp add: maker_unfold statuses_def default_handler_maker_def autocommit_handler_def
        commit_or_rollback_def close_and_delete_def get_aa_scope_state_def asgi_def
        commit_range_def)

text \<open>
  Claim C3, amended.  Each before-send handler (the default one and any autocommit one)
  calls \<open>close\<close> on the stored session exactly when a session is stored and the message type
  is a terminus event, whatever the commit or rollback did (raising included); it deletes
  the session from the scope state exactly when, in addition, that \<open>close\<close> returns without
  raising.  In every other case the scope state is left as it was.
\<close>
theorem handlers_close_on_terminus_and_delete_after_close:
  assumes "autocommit_handler_maker C commit_on_redirect ec er key = Inr autocommit"
      and "h = default_handler_maker C key \<or> h = autocommit"
  shows "filter is_close (events (h db m scope)) =
           (case get_aa_scope_state scope key of
              Some s \<Rightarrow> if msg_type m \<in> SESSION_TERMINUS_ASGI_EVENTS C then [Close s] else []
            | None \<Rightarrow> [])
       \<and> scope_after (h db m scope) =
           (if get_aa_scope_state scope key \<noteq> None
               \<and> msg_type m \<in> SESSION_TERMINUS_ASGI_EVENTS C
               \<and> \<not> close_raises db
            then delete_aa_scope_state scope key else scope)"
proof -
  from assms(1) have a: "autocommit =
      autocommit_handler C (commit_range commit_on_redirect) (statuses ec) (statuses er) key"
    by (simp add: maker_unfold split: if_splits)
  from assms(2) show ?thesis
  proof
    assume "h = default_handler_maker C key"
    then show ?thesis
      by (simp add: default_outcome get_aa_scope_state_def delete_aa_scope_state_def
            split: option.splits)
  next
    assume "h = autocommit"
    then have h: "h =
        autocommit_handler C (commit_range commit_on_redirect) (statuses ec) (statuses er) key"
      by (simp add: a)
    show ?thesis
      unfolding h get_aa_scope_state_def delete_aa_scope_state_def
      by (rule autocommit_cleanup)
  qed
qed

text \<open>
  An instance of the amended C3 in which the commit raises and \<open>close\<close> returns: the
  session is still closed and deleted, and the commit's exception propagates.
\<close>
theorem handlers_close_on_terminus_and_delete_after_close_witness:
  "autocommit_handler_maker asgi False None None ''_aa_session''
      = Inr (autocommit_handler asgi (commit_range False) {||} {||} ''_aa_session'')
   \<and> filter is_close (events (autocommit_handler asgi (commit_range False) {||} {||} ''_aa_session''
          \<lparr>commit_raises = True, rollback_raises = True, close_raises = False\<rparr>
          \<lparr>msg_type = ''http.response.start'', msg_status = Some 200\<rparr>
          [''_aa_session'' \<mapsto> Session 3])) = [Close (Session 3)]
   \<and> scope_after (autocommit_handler asgi (commit_range False) {||} {||} ''_aa_session''
          \<lparr>commit_raises = True, rollback_raises = True, close_raises = False\<rparr>
          \<lparr>msg_type = ''http.response.start'', msg_status = Some 200\<rparr>
          [''_aa_session'' \<mapsto> Session 3]) ''_aa_session'' = None
   \<and> raised (autocommit_handler asgi (commit_range False) {||} {||} ''_aa_session''
          \<lparr>commit_raises = True, rollback_raises = True, close_raises = False\<rparr>
          \<lparr>msg_type = ''http.response.start'', msg_status = Some 200\<rparr>
          [''_aa_session'' \<mapsto> Session 3]) = Some OrmError"
proof -
  have mk: "autocommit_handler_maker asgi False None None ''_aa_session''
      = Inr (autocommit_handler asgi (commit_range False) {||} {||} ''_aa_session'')"
    by (simp add: maker_unfold statuses_def)
  have r: "raised (autocommit_handler asgi (commit_range False) {||} {||} ''_aa_session''
          \<lparr>commit_raises = True, rollback_raises = True, close_raises = False\<rparr>
          \<lparr>msg_type = ''http.response.start'', msg_status = Some 200\<rparr>
          [''_aa_session'' \<mapsto> Session 3]) = Some OrmError"
    by (simp add: autocommit_handler_def commit_or_rollback_def close_and_delete_def
          get_aa_scope_state_def asgi_def commit_range_def)
  show ?thesis
    using handlers_close_on_terminus_and_delete_after_close [OF mk disjI2 [OF refl],
        where db = "\<lparr>commit_raises = True, rollback_raises = True, close_raises = False\<rparr>"
          and m = "\<lparr>msg_type = ''http.response.start'', msg_status = Some 200\<rparr>"
          and scope = "[''_aa_session'' \<mapsto> Session 3]"] mk r
    by (simp add: get_aa_scope_state_def delete_aa_scope_state_def asgi_def)
qed

text \<open>
  Claim C10.  The handler made by \<open>default_handler_maker\<close> never commits and never rolls
  back: the only session call it makes is \<open>close\<close>, on a terminus event with a session
  stored, and the only change to the scope is the removal of that session.
\<close>
theorem default_handler_only_closes:
  "filter is_commit (events (default_handler_maker C key db m scope)) = []
   \<and> filter is_rollback (events (default_handler_maker C key db m scope)) = []
   \<and> events (default_handler_maker C key db m scope) =
       (case get_aa_scope_state scope key of
          Some s \<Rightarrow> if msg_type m \<in> SESSION_TERMINUS_ASGI_EVENTS C then [Close s] else []
        | None \<Rightarrow> [])
   \<and> scope_after (default_handler_maker C key db m scope) =
       (if get_aa_scope_state scope key \<noteq> None
           \<and> msg_type m \<in> SESSION_TERMINUS_ASGI_EVENTS C \<and> \<not> close_raises db
        then delete_aa_scope_state scope key else scope)"
  by (simp add: default_outcome get_aa_scope_state_def delete_aa_scope_state_def
        split: option.splits)

lemma autocommit_decisions:
  "length (filter (\<lambda>e. is_commit e \<or> is_rollback e)
             (events (autocommit_handler C rng ec er key db m scope))) =
     (if get_aa_scope_state scope key \<noteq> None \<and> msg_type m = HTTP_RESPONSE_START C
         \<and> msg_status m \<noteq> None
      then 1 else 0)"
  by (cases "get_aa_scope_state scope key"; cases "msg_status m")
     (simp_all add: autocommit_handler_def commit_or_rollback_def close_and_delete_def)

text \<open>
  Claim C6 says that some status code makes the autocommit handler, on a response-start
  message with a session stored, perform neither a commit nor a rollback.  No such status
  code exists.
\<close>
theorem no_status_skips_commit_and_rollback:
  "\<not> (\<exists>C commit_on_redirect ec er key h db m scope s status.
         autocommit_handler_maker C commit_on_redirect ec er key = Inr h
       \<and> get_aa_scope_state scope key = Some s
       \<and> msg_type m = HTTP_RESPONSE_START C
       \<and> msg_status m = Some status
       \<and> filter is_commit (events (h db m scope)) = []
       \<and> filter is_rollback (events (h db m scope)) = [])"
proof
  assume "\<exists>C commit_on_redirect ec er key h db m scope s status.
         autocommit_handler_maker C commit_on_redirect ec er key = Inr h
       \<and> get_aa_scope_state scope key = Some s
       \<and> msg_type m = HTTP_RESPONSE_START C
       \<and> msg_status m = Some status
       \<and> filter is_commit (events (h db m scope)) = []
       \<and> filter is_rollback (events (h db m scope)) = []"
  then obtain C commit_on_redirect ec er key h db m scope s status where
      mk: "autocommit_handler_maker C commit_on_redirect ec er key = Inr h"
    and st: "get_aa_scope_state scope key = Some s"
    and ty: "msg_type m = HTTP_RESPONSE_START C"
    and status: "msg_status m = Some status"
    and nc: "filter is_commit (events (h db m scope)) = []"
    and nr: "filter is_rollback (events (h db m scope)) = []"
    by blast
  from mk have h: "h =
      autocommit_handler C (commit_range commit_on_redirect) (statuses ec) (statuses er) key"
    by (simp add: maker_unfold split: if_splits)
  from nc nr show False
    unfolding h autocommit_events [OF st ty status]
    by (simp split: if_splits)
qed

text \<open>
  Claim C6, amended.  On a response-start message that carries a status code, with a
  session stored, the autocommit handler performs exactly one of commit and rollback;
  it performs neither exactly when no session is stored, the message is not a
  response-start message, or the message carries no status.
\<close>
theorem autocommit_commit_or_rollback_exactly_once:
  assumes "autocommit_handler_maker C commit_on_redirect ec er key = Inr h"
  shows "length (filter (\<lambda>e. is_commit e \<or> is_rollback e) (events (h db m scope))) =
     (if get_aa_scope_state scope key \<noteq> None \<and> msg_type m = HTTP_RESPONSE_START C
         \<and> msg_status m \<noteq> None
      then 1 else 0)"
proof -
  from assms have h: "h =
      autocommit_handler C (commit_range commit_on_redirect) (statuses ec) (statuses er) key"
    by (simp add: maker_unfold split: if_splits)
  show ?thesis unfolding h by (rule autocommit_decisions)
qed

text \<open>
  An instance of the amended C6: status 500 is rolled back, a single call.
\<close>
theorem autocommit_commit_or_rollback_exactly_once_witness:
  "autocommit_handler_maker asgi True (Some {|418|}) None ''_aa_session''
      = Inr (autocommit_handler asgi (commit_range True) {|418|} {||} ''_aa_session'')
   \<and> length (filter (\<lambda>e. is_commit e \<or> is_rollback e)
        (events (autocommit_handler asgi (commit_range True) {|418|} {||} ''_aa_session''
            \<lparr>commit_raises = False, rollback_raises = False, close_raises = False\<rparr>
            \<lparr>msg_type = ''http.response.start'', msg_status = Some 500\<rparr>
            [''_aa_session'' \<mapsto> Session 7]))) = 1"
proof -
  have mk: "autocommit_handler_maker asgi True (Some {|418|}) None ''_aa_session''
      = Inr (autocommit_handler asgi (commit_range True) {|418|} {||} ''_aa_session'')"
    by (simp add: maker_unfold statuses_def)
  show ?thesis
    using autocommit_commit_or_rollback_exactly_once [OF mk,
        of "\<lparr>commit_raises = False, rollback_raises = False, close_raises = False\<rparr>"
           "\<lparr>msg_type = ''http.response.start'', msg_status = Some 500\<rparr>"
           "[''_aa_session'' \<mapsto> Session 7]"] mk
    by (simp add: get_aa_scope_state_def asgi_def)
qed

section \<open>Properties of the configuration class\<close>

lemma ensure_unique_first:
  "ensure_unique registry key None 0 =
     (if key |\<in>| registry then ensure_unique registry key (Some (suffixed key 1)) 1 else key)"
  by (subst ensure_unique.simps) simp

lemma ensure_unique_next:
  "ensure_unique registry key (Some (suffixed key i)) i =
     (if suffixed key i |\<in>| registry
      then ensure_unique registry key (Some (suffixed key (Suc i))) (Suc i)
      else suffixed key i)"
  by (subst ensure_unique.simps) simp

lemma ensure_unique_search:
  "i \<le> n \<Longrightarrow> \<forall>j. i \<le> j \<and> j < n \<longrightarrow> suffixed key j |\<in>| registry \<Longrightarrow>
   suffixed key n |\<notin>| registry \<Longrightarrow>
   ensure_unique registry key (Some (suffixed key i)) i = suffixed key n"
proof (induction "n - i" arbitrary: i)
  case 0
  then have "i = n" by simp
  with "0.prems" show ?case by (simp add: ensure_unique_next)
next
  case (Suc d)
  then have lt: "i < n" by simp
  with Suc.prems have here: "suffixed key i |\<in>| registry" by simp
  have "ensure_unique registry key (Some (suffixed key (Suc i))) (Suc i) = suffixed key n"
  proof (rule Suc.hyps(1))
    show "d = n - Suc i" using Suc.hyps(2) by simp
    show "Suc i \<le> n" using lt by simp
    show "\<forall>j. Suc i \<le> j \<and> j < n \<longrightarrow> suffixed key j |\<in>| registry"
      using Suc.prems(2) by simp
    show "suffixed key n |\<notin>| registry" by (rule Suc.prems(3))
  qed
  with here show ?case by (simp add: ensure_unique_next)
qed

lemma smallest_suffix_exists: "\<exists>n. is_smallest_suffix registry key n"
proof -
  have "finite (insert 0 {n. suffixed key n |\<in>| registry})"
    by (simp add: finite_suffixes)
  then obtain a where a: "a \<notin> insert 0 {n. suffixed key n |\<in>| registry}"
    using ex_new_if_finite [OF infinite_UNIV_nat] by blast
  define P where "P n = (0 < n \<and> suffixed key n |\<notin>| registry)" for n
  from a have "P a" by (simp add: P_def)
  then have l: "P (LEAST n. P n)" by (rule LeastI)
  have "\<forall>j. 0 < j \<and> j < (LEAST n. P n) \<longrightarrow> suffixed key j |\<in>| registry"
  proof (intro allI impI)
    fix j assume j: "0 < j \<and> j < (LEAST n. P n)"
    then have "\<not> P j" using not_less_Least by blast
    with j show "suffixed key j |\<in>| registry" by (simp add: P_def)
  qed
  with l show ?thesis unfolding is_smallest_suffix_def P_def by blast
qed

lemma smallest_suffix_unique:
  "is_smallest_suffix registry key n \<Longrightarrow> is_smallest_suffix registry key k \<Longrightarrow> n = k"
  unfolding is_smallest_suffix_def by (meson nat_neq_iff)

lemma ensure_unique_smallest:
  "is_smallest_suffix registry key n \<Longrightarrow>
   ensure_unique registry key None 0 = (if key |\<in>| registry then suffixed key n else key)"
proof -
  assume s: "is_smallest_suffix registry key n"
  then have "ensure_unique registry key (Some (suffixed key 1)) 1 = suffixed key n"
    unfolding is_smallest_suffix_def by (intro ensure_unique_search) auto
  then show ?thesis by (simp add: ensure_unique_first)
qed

lemma ensure_unique_fresh: "ensure_unique registry key None 0 |\<notin>| registry"
proof -
  obtain n where n: "is_smallest_suffix registry key n"
    using smallest_suffix_exists by blast
  then show ?thesis
    by (simp add: ensure_unique_smallest [OF n] is_smallest_suffix_def)
qed

lemma ensure_unique_renamed: "renamed registry key (ensure_unique registry key None 0)"
proof -
  obtain n where n: "is_smallest_suffix registry key n"
    using smallest_suffix_exists by blast
  show ?thesis unfolding renamed_def ensure_unique_smallest [OF n] using n by auto
qed

lemma post_init_fields:
  "case post_init C cls self of
     Inl e \<Rightarrow> False
   | Inr (cls', self') \<Rightarrow>
       session_scope_key self' =
         ensure_unique (SESSION_SCOPE_KEY_REGISTRY cls) (session_scope_key self) None 0
     \<and> engine_app_state_key self' =
         ensure_unique (ENGINE_APP_STATE_KEY_REGISTRY cls) (engine_app_state_key self) None 0
     \<and> session_maker_app_state_key self' =
         ensure_unique (SESSIONMAKER_APP_STATE_KEY_REGISTRY cls)
           (session_maker_app_state_key self) None 0
     \<and> SESSION_SCOPE_KEY_REGISTRY cls' =
         finsert (session_scope_key self') (SESSION_SCOPE_KEY_REGISTRY cls)
     \<and> ENGINE_APP_STATE_KEY_REGISTRY cls' =
         finsert (engine_app_state_key self') (ENGINE_APP_STATE_KEY_REGISTRY cls)
     \<and> SESSIONMAKER_APP_STATE_KEY_REGISTRY cls' =
         finsert (session_maker_app_state_key self') (SESSIONMAKER_APP_STATE_KEY_REGISTRY cls)"
  by (cases "before_send_handler self")
     (simp_all add: post_init_def maker_unfold statuses_def)

text \<open>
  Claim C9.  \<open>__post_init__\<close> raises nothing of its own, and for each of \<open>session_scope_key\<close>,
  \<open>engine_app_state_key\<close> and \<open>session_maker_app_state_key\<close>: a requested value that is
  already in the class-level registry is replaced by \<open>key_n\<close> for the smallest positive
  \<open>n\<close> whose \<open>key_n\<close> is not registered (a value not registered is kept); the final value
  was not in the registry before, and it is added to the registry.
\<close>

theorem post_init_keeps_keys_unique:
  "\<exists>cls' self'. post_init C cls self = Inr (cls', self')
     \<and> renamed (SESSION_SCOPE_KEY_REGISTRY cls) (session_scope_key self) (session_scope_key self')
     \<and> renamed (ENGINE_APP_STATE_KEY_REGISTRY cls) (engine_app_state_key self)
          (engine_app_state_key self')
     \<and> renamed (SESSIONMAKER_APP_STATE_KEY_REGISTRY cls) (session_maker_app_state_key self)
          (session_maker_app_state_key self')
     \<and> session_scope_key self' |\<notin>| SESSION_SCOPE_KEY_REGISTRY cls
     \<and> engine_app_state_key self' |\<notin>| ENGINE_APP_STATE_KEY_REGISTRY cls
     \<and> session_maker_app_state_key self' |\<notin>| SESSIONMAKER_APP_STATE_KEY_REGISTRY cls
     \<and> SESSION_SCOPE_KEY_REGISTRY cls' =
         finsert (session_scope_key self') (SESSION_SCOPE_KEY_REGISTRY cls)
     \<and> ENGINE_APP_STATE_KEY_REGISTRY cls' =
         finsert (engine_app_state_key self') (ENGINE_APP_STATE_KEY_REGISTRY cls)
     \<and> SESSIONMAKER_APP_STATE_KEY_REGISTRY cls' =
         finsert (session_maker_app_state_key self') (SESSIONMAKER_APP_STATE_KEY_REGISTRY cls)"
proof (cases "post_init C cls self")
  case (Inl e)
  with post_init_fields [where C = C and cls = cls and self = self] show ?thesis by simp
next
  case (Inr p)
  obtain cls' self' where p: "p = (cls', self')" by (cases p)
  from post_init_fields [where C = C and cls = cls and self = self] Inr p
  show ?thesis
    by (simp add: ensure_unique_renamed ensure_unique_fresh)
qed

text \<open>
  An instance of C9: the default scope key and its first candidate are taken, so the
  instance gets the second candidate.
\<close>

theorem post_init_keeps_keys_unique_witness:
  "\<exists>cls' self'.
      post_init asgi
        \<lparr>SESSION_SCOPE_KEY_REGISTRY = {|''_sqlalchemy_db_session'', ''_sqlalchemy_db_session_1''|},
         ENGINE_APP_STATE_KEY_REGISTRY = {|''db_engine''|},
         SESSIONMAKER_APP_STATE_KEY_REGISTRY = {||}\<rparr>
        (default_config asgi) = Inr (cls', self')
    \<and> session_scope_key self' = ''_sqlalchemy_db_session_2''
    \<and> engine_app_state_key self' = ''db_engine_1''
    \<and> session_maker_app_state_key self' = ''session_maker_class''
    \<and> SESSION_SCOPE_KEY_REGISTRY cls' =
         {|''_sqlalchemy_db_session_2'', ''_sqlalchemy_db_session'', ''_sqlalchemy_db_session_1''|}"
proof -
  have a: "ensure_unique {|''_sqlalchemy_db_session'', ''_sqlalchemy_db_session_1''|}
             ''_sqlalchemy_db_session'' None 0 = ''_sqlalchemy_db_session_2''"
    by (simp add: ensure_unique.simps suffixed_def str_nat.simps digit_char_def)
  have b: "ensure_unique {|''db_engine''|} ''db_engine'' None 0 = ''db_engine_1''"
    by (simp add: ensure_unique.simps suffixed_def str_nat.simps digit_char_def)
  have c: "ensure_unique {||} ''session_maker_class'' None 0 = ''session_maker_class''"
    by (simp add: ensure_unique.simps)
  from post_init_keeps_keys_unique [of asgi
        "\<lparr>SESSION_SCOPE_KEY_REGISTRY = {|''_sqlalchemy_db_session'', ''_sqlalchemy_db_session_1''|},
         ENGINE_APP_STATE_KEY_REGISTRY = {|''db_engine''|},
         SESSIONMAKER_APP_STATE_KEY_REGISTRY = {||}\<rparr>" "default_config asgi"]
  obtain cls' self' where r: "post_init asgi
        \<lparr>SESSION_SCOPE_KEY_REGISTRY = {|''_sqlalchemy_db_session'', ''_sqlalchemy_db_session_1''|},
         ENGINE_APP_STATE_KEY_REGISTRY = {|''db_engine''|},
         SESSIONMAKER_APP_STATE_KEY_REGISTRY = {||}\<rparr>
        (default_config asgi) = Inr (cls', self')"
    and s: "SESSION_SCOPE_KEY_REGISTRY cls' = finsert (session_scope_key self')
              {|''_sqlalchemy_db_session'', ''_sqlalchemy_db_session_1''|}"
    by auto
  from post_init_fields [where C = asgi and self = "default_config asgi" and cls =
        "\<lparr>SESSION_SCOPE_KEY_REGISTRY = {|''_sqlalchemy_db_session'', ''_sqlalchemy_db_session_1''|},
         ENGINE_APP_STATE_KEY_REGISTRY = {|''db_engine''|},
         SESSIONMAKER_APP_STATE_KEY_REGISTRY = {||}\<rparr>"] r a b c s
  show ?thesis
    by (simp add: default_config_def asgi_def)
qed


text \<open>
  Consequently, however many instances are created, no two of them share a scope key, an
  engine key or a session-maker key, and none has a key that was registered before.
\<close>

lemma post_init_step:
  assumes "post_init C cls c = Inr (cls1, c')"
  shows "session_scope_key c' |\<notin>| SESSION_SCOPE_KEY_REGISTRY cls"
    and "engine_app_state_key c' |\<notin>| ENGINE_APP_STATE_KEY_REGISTRY cls"
    and "session_maker_app_state_key c' |\<notin>| SESSIONMAKER_APP_STATE_KEY_REGISTRY cls"
    and "SESSION_SCOPE_KEY_REGISTRY cls1 =
           finsert (session_scope_key c') (SESSION_SCOPE_KEY_REGISTRY cls)"
    and "ENGINE_APP_STATE_KEY_REGISTRY cls1 =
           finsert (engine_app_state_key c') (ENGINE_APP_STATE_KEY_REGISTRY cls)"
    and "SESSIONMAKER_APP_STATE_KEY_REGISTRY cls1 =
           finsert (session_maker_app_state_key c') (SESSIONMAKER_APP_STATE_KEY_REGISTRY cls)"
  using post_init_fields [where C = C and cls = cls and self = c] assms
  by (simp_all add: ensure_unique_fresh)

lemma instances_have_distinct_keys:
  "create_instances C cls reqs = Inr (cls', made) \<Longrightarrow>
     distinct (map session_scope_key made)
   \<and> distinct (map engine_app_state_key made)
   \<and> distinct (map session_maker_app_state_key made)
   \<and> SESSION_SCOPE_KEY_REGISTRY cls' =
       SESSION_SCOPE_KEY_REGISTRY cls |\<union>| fset_of_list (map session_scope_key made)
   \<and> ENGINE_APP_STATE_KEY_REGISTRY cls' =
       ENGINE_APP_STATE_KEY_REGISTRY cls |\<union>| fset_of_list (map engine_app_state_key made)
   \<and> SESSIONMAKER_APP_STATE_KEY_REGISTRY cls' =
       SESSIONMAKER_APP_STATE_KEY_REGISTRY cls
         |\<union>| fset_of_list (map session_maker_app_state_key made)
   \<and> fset_of_list (map session_scope_key made) |\<inter>| SESSION_SCOPE_KEY_REGISTRY cls = {||}
   \<and> fset_of_list (map engine_app_state_key made) |\<inter>| ENGINE_APP_STATE_KEY_REGISTRY cls = {||}
   \<and> fset_of_list (map session_maker_app_state_key made)
         |\<inter>| SESSIONMAKER_APP_STATE_KEY_REGISTRY cls = {||}"
proof (induction reqs arbitrary: cls cls' made)
  case Nil
  then show ?case by simp
next
  case (Cons c cs)
  from Cons.prems obtain cls1 c' made' where
      p: "post_init C cls c = Inr (cls1, c')"
    and r: "create_instances C cls1 cs = Inr (cls', made')"
    and m: "made = c' # made'"
    by (auto split: sum.splits)
  note s = post_init_step [OF p]
  from Cons.IH [OF r] s show ?case
    unfolding m by (auto simp: fset_of_list.rep_eq)
qed

text \<open>
  Claim C2.  With no session stored in the scope, \<open>provide_session\<close> invokes the session
  maker found in the application state under \<open>session_maker_app_state_key\<close> once and
  stores its session in the scope under \<open>session_scope_key\<close>.  From then on every call with
  that scope returns the same session, leaves the scope as it is and does not invoke a
  session maker, whatever the application state and the world are by then.
\<close>

theorem provide_session_idempotent:
  assumes "get_aa_scope_state scope (session_scope_key self) = None"
      and "state (session_maker_app_state_key self) = Some session_maker"
  shows "\<exists>session scope1 w1.
           provide_session self state scope w = Inr (session, scope1, w1)
         \<and> session = session_maker (maker_calls w)
         \<and> w1 = set_async_context True (w\<lparr>maker_calls := Suc (maker_calls w)\<rparr>)
         \<and> maker_calls w1 = Suc (maker_calls w)
         \<and> scope1 = set_aa_scope_state scope (session_scope_key self) session
         \<and> get_aa_scope_state scope1 (session_scope_key self) = Some session
         \<and> (\<forall>state2 w2.
               provide_session self state2 scope1 w2
                 = Inr (session, scope1, set_async_context True w2)
             \<and> maker_calls (set_async_context True w2) = maker_calls w2)"
  using assms
  by (simp add: provide_session_def get_aa_scope_state_def set_aa_scope_state_def
        set_async_context_def Let_def)

lemma provide_session_stored:
  "get_aa_scope_state scope (session_scope_key self) = Some session \<Longrightarrow>
   provide_session self state scope w = Inr (session, scope, set_async_context True w)"
  by (simp add: provide_session_def)

text \<open>
  An instance of C2: a first call that creates the fifth session, and a second call.
\<close>

theorem provide_session_idempotent_witness:
  "get_aa_scope_state Map.empty (session_scope_key (default_config asgi)) = None
   \<and> [''session_maker_class'' \<mapsto> Session] (session_maker_app_state_key (default_config asgi))
       = Some Session
   \<and> provide_session (default_config asgi) [''session_maker_class'' \<mapsto> Session] Map.empty
        \<lparr>maker_calls = 4, async_context = False\<rparr>
       = Inr (Session 4, [''_sqlalchemy_db_session'' \<mapsto> Session 4],
              \<lparr>maker_calls = 5, async_context = True\<rparr>)
   \<and> provide_session (default_config asgi) [''session_maker_class'' \<mapsto> Session]
        [''_sqlalchemy_db_session'' \<mapsto> Session 4] \<lparr>maker_calls = 5, async_context = True\<rparr>
       = Inr (Session 4, [''_sqlalchemy_db_session'' \<mapsto> Session 4],
              \<lparr>maker_calls = 5, async_context = True\<rparr>)"
proof -
  have a: "get_aa_scope_state Map.empty (session_scope_key (default_config asgi)) = None"
    by (simp add: get_aa_scope_state_def)
  have b: "[''session_maker_class'' \<mapsto> Session]
             (session_maker_app_state_key (default_config asgi)) = Some Session"
    by (simp add: default_config_def)
  show ?thesis
    using provide_session_idempotent [where scope = Map.empty and self = "default_config asgi"
        and state = "[''session_maker_class'' \<mapsto> Session]" and session_maker = Session
        and w = "\<lparr>maker_calls = 4, async_context = False\<rparr>", OF a b] a b
    by (auto simp: set_aa_scope_state_def set_async_context_def default_config_def asgi_def)
qed

section \<open>Properties of the plugin\<close>

lemma card_set_neq_length: "(card (set xs) \<noteq> length xs) = (\<not> distinct xs)"
  using card_distinct distinct_card by metis

lemma validate_config_unfold:
  "validate_config c =
     (if 1 < length (configs c)
         \<and> \<not> (distinct (map session_scope_key (configs c))
              \<and> distinct (map engine_dependency_key (configs c))
              \<and> distinct (map session_dependency_key (configs c)))
      then Inl ImproperConfigurationError else Inr ())"
  using card_set_neq_length [of "map session_scope_key (configs c)"]
        card_set_neq_length [of "map engine_dependency_key (configs c)"]
        card_set_neq_length [of "map session_dependency_key (configs c)"]
  by (auto simp: validate_config_def configs_def Let_def)

text \<open>
  Claim C7 says that no operation raises an exception of the repository's own.  Validating
  two configs that share their dependency keys (the defaults) raises
  \<open>ImproperConfigurationError\<close>, which the repository defines.
\<close>

theorem validate_config_raises_repository_error:
  "validate_config (Sequence [default_config asgi,
       (default_config asgi)\<lparr>session_scope_key := ''_sqlalchemy_db_session_1''\<rparr>])
     = Inl ImproperConfigurationError
   \<and> repository_defined ImproperConfigurationError"
  by (simp add: validate_config_unfold configs_def default_config_def)

text \<open>
  Claim C7, amended.  The handler makers raise no repository-defined exception: the only
  exception \<open>autocommit_handler_maker\<close> raises is the built-in \<open>ValueError\<close> (and
  \<open>default_handler_maker\<close> raises nothing: it is a total function).  Configuration
  validation raises the repository-defined \<open>ImproperConfigurationError\<close> exactly when there
  is more than one config and the scope keys, the engine dependency keys or the session
  dependency keys are not pairwise different; otherwise it raises nothing.
\<close>

theorem raised_exception_kinds:
  "(case autocommit_handler_maker C commit_on_redirect ec er key of
      Inl e \<Rightarrow> e = ValueError \<and> \<not> repository_defined e
    | Inr h \<Rightarrow> True)
   \<and> validate_config c =
       (if 1 < length (configs c)
           \<and> \<not> (distinct (map session_scope_key (configs c))
                \<and> distinct (map engine_dependency_key (configs c))
                \<and> distinct (map session_dependency_key (configs c)))
        then Inl ImproperConfigurationError else Inr ())
   \<and> repository_defined ImproperConfigurationError"
  by (simp add: maker_unfold validate_config_unfold)

section \<open>Properties of the filter dependencies\<close>

text \<open>
  Claim C5.  The aggregate function has one keyword parameter per configured filter, and
  the list it returns holds exactly the filters passed for these parameters that are
  valid: an argument that is \<open>None\<close>, a \<open>SearchFilter\<close> whose value is \<open>None\<close> and an
  \<open>OrderBy\<close> whose field name is \<open>None\<close> are omitted, every other passed filter is included.
\<close>

theorem aggregate_returns_valid_passed_filters:
  "set (create_filter_aggregate_function config kwargs) =
     {f. \<exists>name. name \<in> set (aggregate_parameters config) \<and> kwargs name = Some f
           \<and> \<not> (\<exists>field_name. f = SearchFilter field_name None)
           \<and> \<not> (\<exists>sort_order. f = OrderBy None sort_order)}
   \<and> set (aggregate_parameters config) =
       (if id_filter config \<noteq> None then {''id_filter''} else {})
     \<union> (if created_at config then {''created_filter''} else {})
     \<union> (if updated_at config then {''updated_filter''} else {})
     \<union> (if search config \<noteq> None then {''search_filter''} else {})
     \<union> (if pagination_type config = Some ''limit_offset'' then {''limit_offset_filter''} else {})
     \<union> (if sort_field config \<noteq> None then {''order_by_filter''} else {})
     \<union> (\<lambda>field. field @ ''_not_in_filter'') ` set (not_in_fields config)
     \<union> (\<lambda>field. field @ ''_in_filter'') ` set (in_fields config)"
proof -
  have v: "valid_filter f = (\<not> (\<exists>field_name. f = SearchFilter field_name None)
           \<and> \<not> (\<exists>sort_order. f = OrderBy None sort_order))" for f
    by (cases f rule: valid_filter.cases) simp_all
  have a: "set (create_filter_aggregate_function config kwargs) =
     {f. \<exists>name. name \<in> set (aggregate_parameters config) \<and> kwargs name = Some f
           \<and> valid_filter f}"
    by (auto simp: create_filter_aggregate_function_def split: option.splits if_splits)
  have b: "set (aggregate_parameters config) =
       (if id_filter config \<noteq> None then {''id_filter''} else {})
     \<union> (if created_at config then {''created_filter''} else {})
     \<union> (if updated_at config then {''updated_filter''} else {})
     \<union> (if search config \<noteq> None then {''search_filter''} else {})
     \<union> (if pagination_type config = Some ''limit_offset'' then {''limit_offset_filter''} else {})
     \<union> (if sort_field config \<noteq> None then {''order_by_filter''} else {})
     \<union> (\<lambda>field. field @ ''_not_in_filter'') ` set (not_in_fields config)
     \<union> (\<lambda>field. field @ ''_in_filter'') ` set (in_fields config)"
    unfolding aggregate_parameters_def set_append set_map by simp
  show ?thesis unfolding a b v by simp
qed


text \<open>
  An instance of C5: of four passed filters, the search filter without a value is omitted.
\<close>

theorem aggregate_returns_valid_passed_filters_witness:
  "create_filter_aggregate_function example_filter_config
     [''id_filter'' \<mapsto> CollectionFilter ''id'' [''1''],
      ''search_filter'' \<mapsto> SearchFilter ''name'' None,
      ''order_by_filter'' \<mapsto> OrderBy (Some ''name'') ''asc'',
      ''tag_in_filter'' \<mapsto> CollectionFilter ''tag'' [''python'']]
   = [CollectionFilter ''id'' [''1''], OrderBy (Some ''name'') ''asc'',
      CollectionFilter ''tag'' [''python'']]
   \<and> SearchFilter ''name'' None \<notin> set (create_filter_aggregate_function example_filter_config
     [''id_filter'' \<mapsto> CollectionFilter ''id'' [''1''],
      ''search_filter'' \<mapsto> SearchFilter ''name'' None,
      ''order_by_filter'' \<mapsto> OrderBy (Some ''name'') ''asc'',
      ''tag_in_filter'' \<mapsto> CollectionFilter ''tag'' [''python'']])"
proof -
  have e: "create_filter_aggregate_function example_filter_config
     [''id_filter'' \<mapsto> CollectionFilter ''id'' [''1''],
      ''search_filter'' \<mapsto> SearchFilter ''name'' None,
      ''order_by_filter'' \<mapsto> OrderBy (Some ''name'') ''asc'',
      ''tag_in_filter'' \<mapsto> CollectionFilter ''tag'' [''python'']]
   = [CollectionFilter ''id'' [''1''], OrderBy (Some ''name'') ''asc'',
      CollectionFilter ''tag'' [''python'']]"
    by (simp add: create_filter_aggregate_function_def aggregate_parameters_def
          example_filter_config_def)
  from aggregate_returns_valid_passed_filters [of example_filter_config
     "[''id_filter'' \<mapsto> CollectionFilter ''id'' [''1''],
      ''search_filter'' \<mapsto> SearchFilter ''name'' None,
      ''order_by_filter'' \<mapsto> OrderBy (Some ''name'') ''asc'',
      ''tag_in_filter'' \<mapsto> CollectionFilter ''tag'' [''python'']]"]
  have "SearchFilter ''name'' None \<notin> set (create_filter_aggregate_function example_filter_config
     [''id_filter'' \<mapsto> CollectionFilter ''id'' [''1''],
      ''search_filter'' \<mapsto> SearchFilter ''name'' None,
      ''order_by_filter'' \<mapsto> OrderBy (Some ''name'') ''asc'',
      ''tag_in_filter'' \<mapsto> CollectionFilter ''tag'' [''python'']])"
    by blast
  with e show ?thesis by simp
qed

text \<open>
  Claim C4.  \<open>create_filter_dependencies\<close> is a cache keyed by the filter configuration:
  on a hit the cached map is returned and the state is unchanged (nothing is built, nothing
  is stored); on a miss the map is built by \<open>_create_statement_filters\<close>, stored under the
  config's key (the entries under other keys stay), and returned.
\<close>

theorem create_filter_dependencies_cache:
  "(case get_dependencies hash st config of
      Some deps \<Rightarrow>
        create_filter_dependencies hash create_statement_filters config dep_defaults st
          = (deps, st)
    | None \<Rightarrow>
        (\<exists>st'. create_filter_dependencies hash create_statement_filters config dep_defaults st
                 = (create_statement_filters config dep_defaults, st')
             \<and> get_dependencies hash st' config
                 = Some (create_statement_filters config dep_defaults)
             \<and> (\<forall>other. hash other \<noteq> hash config \<longrightarrow>
                    get_dependencies hash st' other = get_dependencies hash st other)
             \<and> statement_filter_calls st' = statement_filter_calls st @ [config]))"
  by (simp add: create_filter_dependencies_def get_dependencies_def add_dependencies_def
        Let_def split: option.splits)

text \<open>
  An instance of C4: a miss that builds and stores, then a hit that returns the same map
  and changes nothing.
\<close>

theorem create_filter_dependencies_cache_witness:
  "get_dependencies (\<lambda>c. int (length (in_fields c)))
      \<lparr>dependencies = Map.empty, statement_filter_calls = []\<rparr> example_filter_config = None
   \<and> create_filter_dependencies (\<lambda>c. int (length (in_fields c)))
        (\<lambda>c d. aggregate_parameters c) example_filter_config ()
        \<lparr>dependencies = Map.empty, statement_filter_calls = []\<rparr>
      = (aggregate_parameters example_filter_config,
         \<lparr>dependencies = [1 \<mapsto> aggregate_parameters example_filter_config],
          statement_filter_calls = [example_filter_config]\<rparr>)
   \<and> create_filter_dependencies (\<lambda>c. int (length (in_fields c)))
        (\<lambda>c d. aggregate_parameters c) example_filter_config ()
        \<lparr>dependencies = [1 \<mapsto> aggregate_parameters example_filter_config],
          statement_filter_calls = [example_filter_config]\<rparr>
      = (aggregate_parameters example_filter_config,
         \<lparr>dependencies = [1 \<mapsto> aggregate_parameters example_filter_config],
          statement_filter_calls = [example_filter_config]\<rparr>)"
proof -
  have miss: "get_dependencies (\<lambda>c. int (length (in_fields c)))
      \<lparr>dependencies = Map.empty, statement_filter_calls = []\<rparr> example_filter_config = None"
    by (simp add: get_dependencies_def)
  have hit: "get_dependencies (\<lambda>c. int (length (in_fields c)))
      \<lparr>dependencies = [1 \<mapsto> aggregate_parameters example_filter_config],
          statement_filter_calls = [example_filter_config]\<rparr> example_filter_config
      = Some (aggregate_parameters example_filter_config)"
    by (simp add: get_dependencies_def example_filter_config_def)
  have first: "create_filter_dependencies (\<lambda>c. int (length (in_fields c)))
        (\<lambda>c d. aggregate_parameters c) example_filter_config ()
        \<lparr>dependencies = Map.empty, statement_filter_calls = []\<rparr>
      = (aggregate_parameters example_filter_config,
         \<lparr>dependencies = [1 \<mapsto> aggregate_parameters example_filter_config],
          statement_filter_calls = [example_filter_config]\<rparr>)"
    by (simp add: create_filter_dependencies_def get_dependencies_def add_dependencies_def
          Let_def example_filter_config_def)
  show ?thesis
    using create_filter_dependencies_cache [where hash = "\<lambda>c. int (length (in_fields c))"
        and st = "\<lparr>dependencies = [1 \<mapsto> aggregate_parameters example_filter_config],
          statement_filter_calls = [example_filter_config]\<rparr>"
        and config = example_filter_config
        and create_statement_filters = "\<lambda>c d. aggregate_parameters c"
        and dep_defaults = "()"] miss hit first
    by simp
qed

end
